theory Spec2Isabelle
  imports Main "HOL-Library.Word" "HOL-Library.Sublist"
begin

unbundle bit_operations_syntax

section \<open>JavaScript strings\<close>

text \<open>
  A JavaScript string is a sequence of UTF-16 code units; a Node \<^verbatim>\<open>Buffer\<close> is a
  sequence of bytes. String literals of the source are written with \<open>lit\<close>, byte
  chunks made of ASCII text with \<open>bytes\<close>.
\<close>

type_synonym jstring = "16 word list"
type_synonym byte = "8 word"

definition lit :: "string \<Rightarrow> jstring" where
  "lit s = map of_char s"

definition bytes :: "string \<Rightarrow> byte list" where
  "bytes s = map of_char s"

text \<open>Truthiness of a string value: every string but the empty one.\<close>

definition truthy :: "jstring \<Rightarrow> bool" where
  "truthy s = (s \<noteq> [])"

text \<open>
  \<^verbatim>\<open>String.prototype.trim\<close> removes WhiteSpace and LineTerminator code units from
  both ends.
\<close>

definition js_whitespace :: "16 word \<Rightarrow> bool" where
  "js_whitespace c =
     (c = 0x09 \<or> c = 0x0A \<or> c = 0x0B \<or> c = 0x0C \<or> c = 0x0D \<or> c = 0x20 \<or> c = 0xA0
      \<or> c = 0x1680 \<or> (0x2000 \<le> c \<and> c \<le> 0x200A) \<or> c = 0x2028 \<or> c = 0x2029
      \<or> c = 0x202F \<or> c = 0x205F \<or> c = 0x3000 \<or> c = 0xFEFF)"

definition trim :: "jstring \<Rightarrow> jstring" where
  "trim s = rev (dropWhile js_whitespace (rev (dropWhile js_whitespace s)))"

text \<open>\<^verbatim>\<open>String.prototype.startsWith\<close>.\<close>

definition startsWith :: "jstring \<Rightarrow> jstring \<Rightarrow> bool" where
  "startsWith s p = prefix p s"

text \<open>
  \<^verbatim>\<open>String.prototype.split(separator, limit)\<close>: the string is cut at every
  occurrence of the separator, found from left to right without overlap; an empty
  separator cuts between all code units. With a limit, the array is truncated to its
  first \<open>limit\<close> elements: the rest of the string is not kept in the last element.
\<close>

function split_from :: "jstring \<Rightarrow> jstring \<Rightarrow> jstring \<Rightarrow> jstring list" where
  "split_from sep cur [] = [cur]"
| "split_from sep cur (c # cs) =
     (if sep \<noteq> [] \<and> prefix sep (c # cs)
      then cur # split_from sep [] (drop (length sep) (c # cs))
      else split_from sep (cur @ [c]) cs)"
  by pat_completeness auto
termination
  by (relation "measure (\<lambda>(sep, cur, s). length s)") auto

definition split :: "jstring \<Rightarrow> jstring \<Rightarrow> jstring list" where
  "split s sep = (if sep = [] then map (\<lambda>c. [c]) s else split_from sep [] s)"

definition split_limit :: "jstring \<Rightarrow> jstring \<Rightarrow> nat \<Rightarrow> jstring list" where
  "split_limit s sep lim = take lim (split s sep)"

text \<open>Reading an array element: \<open>None\<close> is \<^verbatim>\<open>undefined\<close>, past the end.\<close>

definition at_index :: "'a list \<Rightarrow> nat \<Rightarrow> 'a option" where
  "at_index xs i = (if i < length xs then Some (xs ! i) else None)"

text \<open>
  \<^verbatim>\<open>Array.prototype.pop\<close>: removes and returns the last element, \<^verbatim>\<open>undefined\<close>
  on an empty array; the second component is the array afterwards.
\<close>

definition pop :: "'a list \<Rightarrow> 'a option \<times> 'a list" where
  "pop xs = (if xs = [] then (None, []) else (Some (last xs), butlast xs))"

section \<open>Decoding a chunk: \<^verbatim>\<open>chunk.toString('utf-8')\<close>\<close>

text \<open>
  \<^verbatim>\<open>Buffer.prototype.toString\<close> belongs to the platform, not to this repository. It
  is modelled as the UTF-8 decoder of the Encoding Standard, run on the bytes of one
  buffer: every ill-formed or truncated sequence becomes U+FFFD, no byte order mark is
  removed, and a code point above U+FFFF becomes a surrogate pair.
\<close>

record utf8_decoder =
  code_point :: "32 word"
  bytes_needed :: nat
  bytes_seen :: nat
  lower_boundary :: byte
  upper_boundary :: byte

definition utf8_idle :: utf8_decoder where
  "utf8_idle = \<lparr>code_point = 0, bytes_needed = 0, bytes_seen = 0,
                 lower_boundary = 0x80, upper_boundary = 0xBF\<rparr>"

definition replacement :: jstring where
  "replacement = [0xFFFD]"

definition utf16 :: "32 word \<Rightarrow> jstring" where
  "utf16 cp =
     (if cp \<le> 0xFFFF then [ucast cp]
      else [ucast (0xD800 + drop_bit 10 (cp - 0x10000)),
            ucast (0xDC00 + ((cp - 0x10000) AND 0x3FF))])"

definition utf8_lead :: "byte \<Rightarrow> jstring \<times> utf8_decoder" where
  "utf8_lead b =
     (if b \<le> 0x7F then ([ucast b], utf8_idle)
      else if 0xC2 \<le> b \<and> b \<le> 0xDF then
        ([], utf8_idle\<lparr>bytes_needed := 1, code_point := ucast b AND 0x1F\<rparr>)
      else if 0xE0 \<le> b \<and> b \<le> 0xEF then
        ([], utf8_idle\<lparr>bytes_needed := 2, code_point := ucast b AND 0xF,
                        lower_boundary := (if b = 0xE0 then 0xA0 else 0x80),
                        upper_boundary := (if b = 0xED then 0x9F else 0xBF)\<rparr>)
      else if 0xF0 \<le> b \<and> b \<le> 0xF4 then
        ([], utf8_idle\<lparr>bytes_needed := 3, code_point := ucast b AND 0x7,
                        lower_boundary := (if b = 0xF0 then 0x90 else 0x80),
                        upper_boundary := (if b = 0xF4 then 0x8F else 0xBF)\<rparr>)
      else (replacement, utf8_idle))"

definition utf8_step :: "utf8_decoder \<Rightarrow> byte \<Rightarrow> jstring \<times> utf8_decoder" where
  "utf8_step d b =
     (if bytes_needed d = 0 then utf8_lead b
      else if \<not> (lower_boundary d \<le> b \<and> b \<le> upper_boundary d) then
        (case utf8_lead b of (out, d') \<Rightarrow> (replacement @ out, d'))
      else
        (let cp = push_bit 6 (code_point d) OR (ucast b AND 0x3F);
             seen = bytes_seen d + 1
         in if seen \<noteq> bytes_needed d
            then ([], d\<lparr>code_point := cp, bytes_seen := seen,
                        lower_boundary := 0x80, upper_boundary := 0xBF\<rparr>)
            else (utf16 cp, utf8_idle)))"

fun utf8_feed :: "utf8_decoder \<Rightarrow> byte list \<Rightarrow> jstring \<times> utf8_decoder" where
  "utf8_feed d [] = ([], d)"
| "utf8_feed d (b # bs) =
     (case utf8_step d b of (out, d') \<Rightarrow>
        (case utf8_feed d' bs of (rest, d'') \<Rightarrow> (out @ rest, d'')))"

definition utf8_flush :: "utf8_decoder \<Rightarrow> jstring" where
  "utf8_flush d = (if bytes_needed d \<noteq> 0 then replacement else [])"

definition toString_utf8 :: "byte list \<Rightarrow> jstring" where
  "toString_utf8 chunk = (case utf8_feed utf8_idle chunk of (out, d) \<Rightarrow> out @ utf8_flush d)"

section \<open>Results and failures\<close>

text \<open>
  What \<^verbatim>\<open>JSON.parse\<close> can return. The representation of numbers is left open: no
  number is ever inspected here.
\<close>

datatype 'n json =
    JNull
  | JBool bool
  | JNumber 'n
  | JString jstring
  | JArray "'n json list"
  | JObject "(jstring \<times> 'n json) list"

text \<open>
  \<^verbatim>\<open>JSON.parse\<close> itself is a parameter of the model: \<open>None\<close> stands for the
  \<^verbatim>\<open>SyntaxError\<close> it throws.
\<close>

type_synonym 'n json_parse = "jstring \<Rightarrow> 'n json option"

text \<open>The class \<^verbatim>\<open>Summary\<close> of summary.ts: its constructor stores both arguments.\<close>

datatype 'n Summary = Summary (summary_keySentences: "'n json") (summary_overview: jstring)

text \<open>
  \<^verbatim>\<open>InstaparserAPIError(message, statusCode, response)\<close> of exceptions.ts; the third
  argument, when present, is the underlying stream error, kept as its message.
\<close>

datatype InstaparserAPIError =
  InstaparserAPIError (message: jstring) (statusCode: "nat option") (response: "jstring option")

datatype 'n settled = Resolved "'n Summary" | Rejected InstaparserAPIError

section \<open>The streaming branch of \<^verbatim>\<open>InstaparserClient.summary\<close>\<close>

text \<open>
  The closure variables of the promise executor, the lines handed to
  \<^verbatim>\<open>streamCallback\<close> so far (oldest first), and the state of the promise: \<open>None\<close>
  while it is pending. A promise is settled once; later calls of \<^verbatim>\<open>resolve\<close> and
  \<^verbatim>\<open>reject\<close> do nothing.
\<close>

record 'n stream =
  keySentences :: "'n json"
  overview :: jstring
  buffer :: jstring
  callback_calls :: "jstring list"
  promise :: "'n settled option"

definition stream_start :: "'n stream" where
  "stream_start = \<lparr>keySentences = JArray [], overview = [], buffer = [],
                    callback_calls = [], promise = None\<rparr>"

definition settle :: "'n settled \<Rightarrow> 'n stream \<Rightarrow> 'n stream" where
  "settle r s = (case promise s of None \<Rightarrow> s\<lparr>promise := Some r\<rparr> | Some _ \<Rightarrow> s)"

definition streamCallback :: "jstring \<Rightarrow> 'n stream \<Rightarrow> 'n stream" where
  "streamCallback line s = s\<lparr>callback_calls := callback_calls s @ [line]\<rparr>"

text \<open>\<^verbatim>\<open>line.split(':', 1)[1]?.trim()\<close>\<close>

definition jsonStr :: "jstring \<Rightarrow> jstring option" where
  "jsonStr line = map_option trim (at_index (split_limit line (lit '':'') 1) 1)"

text \<open>\<^verbatim>\<open>line.split(': ', 2)[1]\<close>\<close>

definition deltaContent :: "jstring \<Rightarrow> jstring option" where
  "deltaContent line = at_index (split_limit line (lit '': '') 2) 1"

text \<open>
  The body of the \<^verbatim>\<open>for\<close> loop of the \<^verbatim>\<open>'data'\<close> handler, for one line. The
  flag says that the handler has returned from inside the loop.
\<close>

definition data_line :: "'n json_parse \<Rightarrow> jstring \<Rightarrow> 'n stream \<Rightarrow> 'n stream \<times> bool" where
  "data_line parse line s =
     (if truthy (trim line) then
        (let s1 = streamCallback line s in
         if startsWith line (lit ''key_sentences:'') then
           (case jsonStr line of
              None \<Rightarrow> (s1, False)
            | Some j \<Rightarrow>
                if truthy j then
                  (case parse j of
                     Some v \<Rightarrow> (s1\<lparr>keySentences := v\<rparr>, False)
                   | None \<Rightarrow>
                       (settle (Rejected (InstaparserAPIError
                          (lit ''Unable to generate key sentences'') (Some 412) None)) s1, True))
                else (s1, False))
         else if startsWith line (lit ''delta:'') then
           (case deltaContent line of
              None \<Rightarrow> (s1, False)
            | Some d \<Rightarrow> if truthy d then (s1\<lparr>overview := overview s1 @ d\<rparr>, False)
                        else (s1, False))
         else (s1, False))
      else (s, False))"

fun for_lines :: "'n json_parse \<Rightarrow> jstring list \<Rightarrow> 'n stream \<Rightarrow> 'n stream" where
  "for_lines parse [] s = s"
| "for_lines parse (line # rest) s =
     (case data_line parse line s of
        (s', True) \<Rightarrow> s'
      | (s', False) \<Rightarrow> for_lines parse rest s')"

text \<open>
  The first statements of the \<^verbatim>\<open>'data'\<close> handler: the decoded chunk is appended to
  the buffer, the buffer is split at line feeds, and the last piece is popped off as
  the new buffer. The result is the lines to loop over and the new buffer.
\<close>

definition take_lines :: "jstring \<Rightarrow> jstring \<Rightarrow> jstring list \<times> jstring" where
  "take_lines buf text =
     (case pop (split (buf @ text) (lit [CHR 0x0A])) of
        (popped, lines) \<Rightarrow>
          (lines, case popped of None \<Rightarrow> [] | Some l \<Rightarrow> if truthy l then l else []))"

text \<open>The \<^verbatim>\<open>'data'\<close> handler.\<close>

definition on_data :: "'n json_parse \<Rightarrow> byte list \<Rightarrow> 'n stream \<Rightarrow> 'n stream" where
  "on_data parse chunk s =
     (case take_lines (buffer s) (toString_utf8 chunk) of
        (lines, buf) \<Rightarrow> for_lines parse lines (s\<lparr>buffer := buf\<rparr>))"

text \<open>
  The \<^verbatim>\<open>'end'\<close> handler: the same classification on what is left in the buffer,
  with an empty \<^verbatim>\<open>catch\<close>, and then \<^verbatim>\<open>resolve\<close>.
\<close>

definition on_end :: "'n json_parse \<Rightarrow> 'n stream \<Rightarrow> 'n stream" where
  "on_end parse s =
     (let s2 =
        (if truthy (trim (buffer s)) then
           (let s1 = streamCallback (buffer s) s in
            if startsWith (buffer s) (lit ''key_sentences:'') then
              (case jsonStr (buffer s) of
                 None \<Rightarrow> s1
               | Some j \<Rightarrow>
                   if truthy j then
                     (case parse j of Some v \<Rightarrow> s1\<lparr>keySentences := v\<rparr> | None \<Rightarrow> s1)
                   else s1)
            else if startsWith (buffer s) (lit ''delta:'') then
              (case deltaContent (buffer s) of
                 None \<Rightarrow> s1
               | Some d \<Rightarrow> if truthy d then s1\<lparr>overview := overview s1 @ d\<rparr> else s1)
            else s1)
         else s)
      in settle (Resolved (Summary (keySentences s2) (overview s2))) s2)"

text \<open>The \<^verbatim>\<open>'error'\<close> handler; the argument is \<^verbatim>\<open>error.message\<close>.\<close>

definition on_error :: "jstring \<Rightarrow> 'n stream \<Rightarrow> 'n stream" where
  "on_error msg s =
     settle (Rejected (InstaparserAPIError (lit ''Stream error: '' @ msg) None (Some msg))) s"

text \<open>
  A response stream emits its chunks in order and then ends. \<open>feed\<close> is the state
  after the chunks, \<open>summary_stream\<close> what the promise holds after \<^verbatim>\<open>'end'\<close>.
\<close>

definition feed :: "'n json_parse \<Rightarrow> byte list list \<Rightarrow> 'n stream \<Rightarrow> 'n stream" where
  "feed parse chunks s = foldl (\<lambda>s chunk. on_data parse chunk s) s chunks"

definition summary_stream :: "'n json_parse \<Rightarrow> byte list list \<Rightarrow> 'n settled option" where
  "summary_stream parse chunks = promise (on_end parse (feed parse chunks stream_start))"

section \<open>Closed forms of the handlers\<close>

text \<open>The line feed the buffer is split at, and the text a chunk sequence decodes to,
  chunk by chunk.\<close>

definition line_feed :: "16 word" where
  "line_feed = 0x0A"

definition decoded :: "byte list list \<Rightarrow> jstring" where
  "decoded chunks = concat (map toString_utf8 chunks)"

text \<open>The pieces the \<^verbatim>\<open>'data'\<close> handler cuts a text into:
  \<^verbatim>\<open>text.split('\n')\<close>.\<close>

definition lines_of :: "jstring \<Rightarrow> jstring list" where
  "lines_of t = split t (lit [CHR 0x0A])"

text \<open>A chunk ends on a character boundary when the decoder has nothing pending
  after its last byte.\<close>

definition ends_on_boundary :: "byte list \<Rightarrow> bool" where
  "ends_on_boundary chunk = (snd (utf8_feed utf8_idle chunk) = utf8_idle)"

text \<open>A line is blank when nothing is left of it after trimming.\<close>

definition blank :: "jstring \<Rightarrow> bool" where
  "blank line = (\<not> truthy (trim line))"

text \<open>What a line adds to the overview.\<close>

definition delta_text :: "jstring \<Rightarrow> jstring" where
  "delta_text line =
     (if startsWith line (lit ''delta:'')
      then (case deltaContent line of None \<Rightarrow> [] | Some d \<Rightarrow> d) else [])"

definition absorb :: "jstring \<Rightarrow> 'n stream \<Rightarrow> 'n stream" where
  "absorb line s =
     (if blank line then s
      else s\<lparr>callback_calls := callback_calls s @ [line],
             overview := overview s @ delta_text line\<rparr>)"

text \<open>
  The state a pending stream is in once the text \<open>t\<close> has arrived, from the start:
  shown below to be what \<open>feed\<close> computes, however the text was cut into chunks.
\<close>

definition after_text :: "jstring \<Rightarrow> 'n stream" where
  "after_text t =
     \<lparr>keySentences = JArray [],
      overview = concat (map delta_text (filter (\<lambda>l. \<not> blank l) (butlast (lines_of t)))),
      buffer = last (lines_of t),
      callback_calls = filter (\<lambda>l. \<not> blank l) (butlast (lines_of t)),
      promise = None\<rparr>"

text \<open>
  The lines the \<^verbatim>\<open>'data'\<close> handler has looped over while the chunks arrived,
  blank ones included, and the buffer it is left with.
\<close>

fun extracted :: "jstring \<Rightarrow> byte list list \<Rightarrow> jstring list \<times> jstring" where
  "extracted buf [] = ([], buf)"
| "extracted buf (chunk # chunks) =
     (case take_lines buf (toString_utf8 chunk) of (lines, buf') \<Rightarrow>
        (case extracted buf' chunks of (later, b) \<Rightarrow> (lines @ later, b)))"

text \<open>The lines of a text in the words of the specification: the text split at line
  feeds, without the empty last piece when the text ends with a line feed.\<close>

definition lines_by_spec :: "jstring \<Rightarrow> jstring list" where
  "lines_by_spec t =
     (if t \<noteq> [] \<and> last t = line_feed then butlast (lines_of t) else lines_of t)"

text \<open>The payload of a tagged line in the words of the specification: the text after
  the first colon, trimmed.\<close>

definition payload_after_first_colon :: "jstring \<Rightarrow> jstring" where
  "payload_after_first_colon line = trim (drop 1 (dropWhile (\<lambda>c. c \<noteq> 0x3A) line))"

section \<open>Articles and PDFs\<close>

text \<open>The interface \<^verbatim>\<open>ArticleData\<close>: every field is optional. Numbers are only
  copied, but for the default \<open>0\<close> of \<^verbatim>\<open>words\<close>. The field \<^verbatim>\<open>text\<close> is
  written \<open>text'\<close>.\<close>

record 'n ArticleData =
  url :: "jstring option"
  title :: "jstring option"
  site_name :: "jstring option"
  author :: "jstring option"
  date :: "'n option"
  description :: "jstring option"
  thumbnail :: "jstring option"
  words :: "'n option"
  is_rtl :: "bool option"
  images :: "jstring list option"
  videos :: "jstring list option"
  html :: "jstring option"
  text' :: "jstring option"

record 'n Article =
  url :: "jstring option"
  title :: "jstring option"
  siteName :: "jstring option"
  author :: "jstring option"
  date :: "'n option"
  description :: "jstring option"
  thumbnail :: "jstring option"
  words :: 'n
  isRtl :: bool
  images :: "jstring list"
  videos :: "jstring list"
  html :: "jstring option"
  text' :: "jstring option"
  body :: "jstring option"

text \<open>\<^verbatim>\<open>a ?? b\<close> and, on optional strings, \<^verbatim>\<open>a || b\<close>.\<close>

definition nullish :: "'a option \<Rightarrow> 'a \<Rightarrow> 'a" where
  "nullish a b = (case a of None \<Rightarrow> b | Some v \<Rightarrow> v)"

definition or_else :: "jstring option \<Rightarrow> jstring option \<Rightarrow> jstring option" where
  "or_else a b = (case a of None \<Rightarrow> b | Some v \<Rightarrow> if truthy v then Some v else b)"

text \<open>The constructor of \<^verbatim>\<open>Article\<close>.\<close>

definition Article :: "'n::zero ArticleData \<Rightarrow> 'n Article" where
  "Article data =
     \<lparr>url = ArticleData.url data,
      title = ArticleData.title data,
      siteName = site_name data,
      author = ArticleData.author data,
      date = ArticleData.date data,
      description = ArticleData.description data,
      thumbnail = ArticleData.thumbnail data,
      words = nullish (ArticleData.words data) 0,
      isRtl = nullish (is_rtl data) False,
      images = nullish (ArticleData.images data) [],
      videos = nullish (ArticleData.videos data) [],
      html = ArticleData.html data,
      text' = ArticleData.text' data,
      body = or_else (ArticleData.html data) (ArticleData.text' data)\<rparr>"

text \<open>The constructor of \<^verbatim>\<open>PDF\<close>, a subclass of \<^verbatim>\<open>Article\<close> with no field of
  its own: it calls \<^verbatim>\<open>super\<close> on a copy of the data with two fields overwritten.\<close>

definition PDF :: "'n::zero ArticleData \<Rightarrow> 'n Article" where
  "PDF data = Article (data\<lparr>is_rtl := Some False, ArticleData.videos := Some []\<rparr>)"

section \<open>Splitting at line feeds\<close>

lemma lit_line_feed: "lit [CHR 0x0A] = [line_feed]"
  by (simp add: lit_def line_feed_def)

lemma split_from_char_Cons:
  "split_from [c] cur (x # xs) =
     (if x = c then cur # split_from [c] [] xs else split_from [c] (cur @ [x]) xs)"
  by simp

lemma split_from_nonempty: "split_from [c] cur xs \<noteq> []"
  by (induction xs arbitrary: cur) simp_all

lemma split_from_append:
  "split_from [c] cur (a @ b) =
     butlast (split_from [c] cur a) @ split_from [c] (last (split_from [c] cur a)) b"
  by (induction a arbitrary: cur) (auto simp: split_from_nonempty)

lemma split_from_pending:
  "c \<notin> set cur \<Longrightarrow> split_from [c] pre (cur @ b) = split_from [c] (pre @ cur) b"
  by (induction cur arbitrary: pre) simp_all

lemma split_from_no_sep:
  "c \<notin> set cur \<Longrightarrow> l \<in> set (split_from [c] cur xs) \<Longrightarrow> c \<notin> set l"
proof (induction xs arbitrary: cur)
  case Nil
  then show ?case by simp
next
  case (Cons x xs)
  show ?case
  proof (cases "x = c")
    case True
    with Cons.prems have "l = cur \<or> l \<in> set (split_from [c] [] xs)" by simp
    then show ?thesis using Cons.prems(1) Cons.IH [of "[]"] by auto
  next
    case False
    with Cons.prems have "l \<in> set (split_from [c] (cur @ [x]) xs)" by simp
    then show ?thesis using Cons.prems(1) False Cons.IH [of "cur @ [x]"] by auto
  qed
qed

lemma split_from_join:
  "concat (map (\<lambda>l. l @ [c]) (butlast (split_from [c] cur xs))) @ last (split_from [c] cur xs)
     = cur @ xs"
  by (induction xs arbitrary: cur) (auto simp: split_from_nonempty)

lemma lines_of_split_from: "lines_of t = split_from [line_feed] [] t"
  by (simp add: lines_of_def split_def lit_line_feed)

lemma lines_of_nonempty: "lines_of t \<noteq> []"
  by (simp add: lines_of_split_from split_from_nonempty)

lemma lines_of_no_line_feed: "l \<in> set (lines_of t) \<Longrightarrow> line_feed \<notin> set l"
  using split_from_no_sep [of line_feed "[]" l t] by (simp add: lines_of_split_from)

lemma lines_of_append:
  "lines_of (a @ b) = butlast (lines_of a) @ lines_of (last (lines_of a) @ b)"
proof -
  have "line_feed \<notin> set (last (lines_of a))"
    using lines_of_no_line_feed [of "last (lines_of a)" a] lines_of_nonempty [of a] by simp
  then have "split_from [line_feed] (last (lines_of a)) b = lines_of (last (lines_of a) @ b)"
    using split_from_pending [of line_feed "last (lines_of a)" "[]" b]
    by (simp add: lines_of_split_from)
  then show ?thesis
    using split_from_append [of line_feed "[]" a b] by (simp add: lines_of_split_from)
qed

lemma lines_of_join:
  "concat (map (\<lambda>l. l @ [line_feed]) (butlast (lines_of t))) @ last (lines_of t) = t"
  using split_from_join [of line_feed "[]" t] by (simp add: lines_of_split_from)

section \<open>The handlers in closed form\<close>

lemma take_lines_eq:
  "take_lines buf t = (butlast (lines_of (buf @ t)), last (lines_of (buf @ t)))"
  by (simp add: take_lines_def pop_def lines_of_def [symmetric] lines_of_nonempty truthy_def)

lemma jsonStr_undefined: "jsonStr line = None"
  by (simp add: jsonStr_def split_limit_def at_index_def)

lemma tags_exclusive:
  "startsWith line (lit ''key_sentences:'') \<Longrightarrow> \<not> startsWith line (lit ''delta:'')"
  by (cases line) (simp_all add: startsWith_def lit_def)

lemma data_line_absorb: "data_line parse line s = (absorb line s, False)"
  by (simp add: data_line_def absorb_def blank_def delta_text_def jsonStr_undefined
      streamCallback_def Let_def truthy_def tags_exclusive split: option.split)


lemma for_lines_fold: "for_lines parse ls s = fold absorb ls s"
  by (induction ls arbitrary: s) (simp_all add: data_line_absorb)

lemma on_data_fold:
  "on_data parse chunk s =
     fold absorb (butlast (lines_of (buffer s @ toString_utf8 chunk)))
       (s\<lparr>buffer := last (lines_of (buffer s @ toString_utf8 chunk))\<rparr>)"
  by (simp add: on_data_def take_lines_eq for_lines_fold)

lemma fold_absorb:
  "fold absorb ls s =
     s\<lparr>overview := overview s @ concat (map delta_text (filter (\<lambda>l. \<not> blank l) ls)),
       callback_calls := callback_calls s @ filter (\<lambda>l. \<not> blank l) ls\<rparr>"
  by (induction ls arbitrary: s) (simp_all add: absorb_def)

lemma on_data_after_text:
  "on_data parse chunk (after_text t) = after_text (t @ toString_utf8 chunk)"
proof -
  let ?u = "toString_utf8 chunk"
  have cut: "lines_of (t @ ?u) = butlast (lines_of t) @ lines_of (last (lines_of t) @ ?u)"
    by (rule lines_of_append)
  have front: "butlast (lines_of (t @ ?u)) =
      butlast (lines_of t) @ butlast (lines_of (last (lines_of t) @ ?u))"
    by (simp add: cut butlast_append lines_of_nonempty)
  have tail_eq: "last (lines_of (t @ ?u)) = last (lines_of (last (lines_of t) @ ?u))"
    by (simp add: cut lines_of_nonempty)
  show ?thesis
    by (simp add: on_data_fold fold_absorb after_text_def front tail_eq)
qed

lemma after_text_empty: "after_text [] = stream_start"
  by (simp add: after_text_def stream_start_def lines_of_split_from)

lemma feed_snoc: "feed parse (chunks @ [chunk]) s = on_data parse chunk (feed parse chunks s)"
  by (simp add: feed_def)

lemma feed_after_text: "feed parse chunks stream_start = after_text (decoded chunks)"
proof (induction chunks rule: rev_induct)
  case Nil
  show ?case by (simp add: feed_def decoded_def after_text_empty)
next
  case (snoc chunk chunks)
  then show ?case by (simp add: feed_snoc on_data_after_text decoded_def)
qed

lemma on_end_absorb:
  "on_end parse s =
     settle (Resolved (Summary (keySentences s) (overview (absorb (buffer s) s))))
       (absorb (buffer s) s)"
  by (simp add: on_end_def absorb_def blank_def delta_text_def jsonStr_undefined
      streamCallback_def Let_def truthy_def tags_exclusive split: option.split)

lemma filter_butlast_last:
  "xs \<noteq> [] \<Longrightarrow> filter P (butlast xs) @ (if P (last xs) then [last xs] else []) = filter P xs"
  by (induction xs) auto

lemma on_end_after_text:
  "on_end parse (after_text t) =
     \<lparr>keySentences = JArray [],
      overview = concat (map delta_text (filter (\<lambda>l. \<not> blank l) (lines_of t))),
      buffer = last (lines_of t),
      callback_calls = filter (\<lambda>l. \<not> blank l) (lines_of t),
      promise = Some (Resolved (Summary (JArray [])
        (concat (map delta_text (filter (\<lambda>l. \<not> blank l) (lines_of t))))))\<rparr>"
proof -
  let ?P = "\<lambda>l. \<not> blank l"
  have calls: "filter ?P (butlast (lines_of t)) @ (if ?P (last (lines_of t)) then [last (lines_of t)] else [])
      = filter ?P (lines_of t)"
    by (rule filter_butlast_last) (rule lines_of_nonempty)
  have "concat (map delta_text (filter ?P (butlast (lines_of t)) @ (if ?P (last (lines_of t)) then [last (lines_of t)] else [])))
      = concat (map delta_text (filter ?P (lines_of t)))"
    by (simp only: calls)
  then have ov: "concat (map delta_text (filter ?P (butlast (lines_of t)))) @
       (if ?P (last (lines_of t)) then delta_text (last (lines_of t)) else [])
      = concat (map delta_text (filter ?P (lines_of t)))"
    by (simp split: if_splits)
  show ?thesis
    using calls ov
    by (simp add: on_end_absorb after_text_def absorb_def settle_def split: if_splits)
qed


lemma summary_stream_after_text:
  "summary_stream parse chunks =
     Some (Resolved (Summary (JArray [])
       (concat (map delta_text (filter (\<lambda>l. \<not> blank l) (lines_of (decoded chunks)))))))"
  by (simp add: summary_stream_def feed_after_text on_end_after_text)

section \<open>Decoding chunk by chunk\<close>

lemma utf8_feed_append:
  "utf8_feed d (a @ b) =
     (case utf8_feed d a of (out, d') \<Rightarrow>
        (case utf8_feed d' b of (rest, d'') \<Rightarrow> (out @ rest, d'')))"
  by (induction a arbitrary: d) (simp_all split: prod.split)

lemma toString_utf8_append:
  "ends_on_boundary a \<Longrightarrow> toString_utf8 (a @ b) = toString_utf8 a @ toString_utf8 b"
proof -
  assume "ends_on_boundary a"
  then obtain out where fa: "utf8_feed utf8_idle a = (out, utf8_idle)"
    by (cases "utf8_feed utf8_idle a") (simp add: ends_on_boundary_def)
  obtain rest d where fb: "utf8_feed utf8_idle b = (rest, d)"
    by (cases "utf8_feed utf8_idle b")
  have "utf8_feed utf8_idle (a @ b) = (out @ rest, d)"
    by (simp add: utf8_feed_append fa fb)
  moreover have "utf8_flush utf8_idle = []"
    by (simp add: utf8_flush_def utf8_idle_def)
  ultimately show ?thesis
    by (simp add: toString_utf8_def fa fb)
qed

lemma toString_utf8_Nil: "toString_utf8 [] = []"
  by (simp add: toString_utf8_def utf8_flush_def utf8_idle_def)

lemma decoded_on_boundaries:
  "list_all ends_on_boundary (butlast chunks) \<Longrightarrow> decoded chunks = toString_utf8 (concat chunks)"
proof (induction chunks)
  case Nil
  show ?case by (simp add: decoded_def toString_utf8_Nil)
next
  case (Cons chunk chunks)
  show ?case
  proof (cases "chunks = []")
    case True
    then show ?thesis by (simp add: decoded_def)
  next
    case False
    with Cons.prems have here: "ends_on_boundary chunk"
      and later: "list_all ends_on_boundary (butlast chunks)" by simp_all
    have "decoded (chunk # chunks) = toString_utf8 chunk @ decoded chunks"
      by (simp add: decoded_def)
    also have "\<dots> = toString_utf8 chunk @ toString_utf8 (concat chunks)"
      using Cons.IH [OF later] by simp
    also have "\<dots> = toString_utf8 (concat (chunk # chunks))"
      using toString_utf8_append [OF here] by simp
    finally show ?thesis .
  qed
qed

lemma decoded_single: "decoded [chunk] = toString_utf8 chunk"
  by (simp add: decoded_def)

section \<open>The lines taken out of the buffer\<close>

lemma lines_of_one: "line_feed \<notin> set t \<Longrightarrow> lines_of t = [t]"
proof -
  assume "line_feed \<notin> set t"
  then have "split_from [line_feed] [] (t @ []) = split_from [line_feed] ([] @ t) []"
    by (rule split_from_pending)
  then show ?thesis by (simp add: lines_of_split_from)
qed

lemma last_lines_of_no_line_feed: "line_feed \<notin> set (last (lines_of t))"
  using lines_of_no_line_feed [of "last (lines_of t)" t] lines_of_nonempty [of t] by simp

lemma extracted_eq:
  "line_feed \<notin> set buf \<Longrightarrow>
   extracted buf chunks =
     (butlast (lines_of (buf @ decoded chunks)), last (lines_of (buf @ decoded chunks)))"
proof (induction chunks arbitrary: buf)
  case Nil
  then show ?case by (simp add: decoded_def lines_of_one)
next
  case (Cons chunk chunks)
  let ?u = "toString_utf8 chunk"
  let ?b = "last (lines_of (buf @ ?u))"
  have ih: "extracted ?b chunks =
      (butlast (lines_of (?b @ decoded chunks)), last (lines_of (?b @ decoded chunks)))"
    by (rule Cons.IH) (rule last_lines_of_no_line_feed)
  have cut: "lines_of ((buf @ ?u) @ decoded chunks) =
      butlast (lines_of (buf @ ?u)) @ lines_of (?b @ decoded chunks)"
    by (rule lines_of_append)
  have whole: "buf @ decoded (chunk # chunks) = (buf @ ?u) @ decoded chunks"
    by (simp add: decoded_def)
  show ?case
    by (simp only: whole cut extracted.simps take_lines_eq ih prod.case)
       (simp add: butlast_append lines_of_nonempty)
qed

lemma blank_Nil: "blank []"
  by (simp add: blank_def truthy_def trim_def)

lemma last_lines_of_snoc: "last (lines_of (a @ [line_feed])) = []"
proof -
  have "lines_of (a @ [line_feed]) =
      butlast (lines_of a) @ lines_of (last (lines_of a) @ [line_feed])"
    by (rule lines_of_append)
  moreover have "lines_of (last (lines_of a) @ [line_feed]) = [last (lines_of a), []]"
    using split_from_pending [of line_feed "last (lines_of a)" "[]" "[line_feed]"]
      last_lines_of_no_line_feed [of a]
    by (simp add: lines_of_split_from)
  ultimately show ?thesis by simp
qed

lemma lines_by_spec_nonblank:
  "filter (\<lambda>l. \<not> blank l) (lines_by_spec t) = filter (\<lambda>l. \<not> blank l) (lines_of t)"
proof (cases "t \<noteq> [] \<and> last t = line_feed")
  case True
  then have "t = butlast t @ [line_feed]" by (metis append_butlast_last_id)
  then have "last (lines_of t) = []" using last_lines_of_snoc [of "butlast t"] by simp
  then have "filter (\<lambda>l. \<not> blank l) (butlast (lines_of t)) = filter (\<lambda>l. \<not> blank l) (lines_of t)"
    using filter_butlast_last [of "lines_of t" "\<lambda>l. \<not> blank l"] lines_of_nonempty [of t]
    by (simp add: blank_Nil)
  with True show ?thesis by (simp add: lines_by_spec_def)
next
  case False
  then show ?thesis by (auto simp: lines_by_spec_def)
qed

text \<open>The definitions a run on concrete chunks unfolds.\<close>

lemmas run_defs =
  summary_stream_def feed_def on_data_def on_end_def take_lines_def toString_utf8_def
  utf8_lead_def utf8_step_def utf8_flush_def utf8_idle_def utf16_def replacement_def
  bytes_def lit_def split_def pop_def truthy_def trim_def js_whitespace_def
  data_line_def streamCallback_def startsWith_def jsonStr_def deltaContent_def
  split_limit_def at_index_def stream_start_def settle_def

section \<open>Key sentences\<close>

text \<open>
  C1. A line that starts with \<^verbatim>\<open>key_sentences:\<close> and carries a JSON array of strings
  after its first colon is meant to replace \<open>keySentences\<close>, the last such line
  winning. The handler does not do so: \<^verbatim>\<open>line.split(':', 1)\<close> keeps one piece
  only, its element 1 is \<^verbatim>\<open>undefined\<close>, and \<^verbatim>\<open>JSON.parse\<close> is never called. A
  stream of the two lines \<^verbatim>\<open>key_sentences: ["a","b"]\<close> and
  \<^verbatim>\<open>key_sentences: ["c"]\<close> resolves with the empty list, whatever \<^verbatim>\<open>JSON.parse\<close>
  would return.
\<close>

theorem key_sentences_lines_are_not_parsed:
  \<open>summary_stream parse
     [bytes ''key_sentences: ["a","b"]'' @ [0x0A] @ bytes ''key_sentences: ["c"]'' @ [0x0A]]
     = Some (Resolved (Summary (JArray []) []))\<close>
  by (simp add: run_defs)

text \<open>
  C3. A line that starts with \<^verbatim>\<open>key_sentences:\<close> and whose payload is not JSON,
  met before the end of the stream, is meant to reject the promise with the 412
  error. For the reason given at C1 the \<^verbatim>\<open>catch\<close> block is never entered: the
  stream goes on, the next line is classified, and the promise resolves with a
  \<^verbatim>\<open>Summary\<close>, also when \<^verbatim>\<open>JSON.parse\<close> throws on every input.
\<close>

theorem malformed_key_sentences_mid_stream_resolves:
  \<open>summary_stream parse
     [bytes ''key_sentences: not json'' @ [0x0A], bytes ''delta: x'' @ [0x0A]]
     = Some (Resolved (Summary (JArray []) (lit ''x'')))\<close>
  by (simp add: run_defs)

text \<open>
  C6. At the end of the stream, a non-blank buffer that starts with
  \<^verbatim>\<open>key_sentences:\<close> and whose payload does not parse leaves the promise resolved,
  with the \<open>keySentences\<close> and the \<open>overview\<close> the stream had before the flush.
\<close>

theorem end_flush_swallows_malformed_key_sentences:
  assumes "promise s = None"
    and "\<not> blank (buffer s)"
    and "startsWith (buffer s) (lit ''key_sentences:'')"
    and "parse (payload_after_first_colon (buffer s)) = None"
  shows "promise (on_end parse s) = Some (Resolved (Summary (keySentences s) (overview s)))
     \<and> keySentences (on_end parse s) = keySentences s"
  using assms
  by (simp add: on_end_absorb absorb_def delta_text_def tags_exclusive settle_def)

text \<open>The same at a buffer \<^verbatim>\<open>key_sentences: [oops\<close>, with key sentences set before.\<close>

theorem end_flush_swallows_malformed_key_sentences_witness:
  "promise \<lparr>keySentences = JArray [JString (lit ''a'')], overview = lit ''x'',
            buffer = lit ''key_sentences: [oops'', callback_calls = [],
            promise = (None :: unit settled option)\<rparr> = None
   \<and> \<not> blank (lit ''key_sentences: [oops'')
   \<and> startsWith (lit ''key_sentences: [oops'') (lit ''key_sentences:'')
   \<and> payload_after_first_colon (lit ''key_sentences: [oops'') = lit ''[oops''
   \<and> promise (on_end Map.empty
        \<lparr>keySentences = JArray [JString (lit ''a'')], overview = lit ''x'',
         buffer = lit ''key_sentences: [oops'', callback_calls = [],
         promise = (None :: unit settled option)\<rparr>)
      = Some (Resolved (Summary (JArray [JString (lit ''a'')]) (lit ''x'')))"
proof -
  let ?s = "\<lparr>keySentences = JArray [JString (lit ''a'')], overview = lit ''x'',
            buffer = lit ''key_sentences: [oops'', callback_calls = [],
            promise = (None :: unit settled option)\<rparr>"
  have h1: "promise ?s = None" by simp
  have h2: "\<not> blank (buffer ?s)"
    by (simp add: blank_def truthy_def trim_def lit_def js_whitespace_def)
  have h3: "startsWith (buffer ?s) (lit ''key_sentences:'')"
    by (simp add: startsWith_def lit_def)
  have h4: "Map.empty (payload_after_first_colon (buffer ?s)) = None" by simp
  have p: "payload_after_first_colon (lit ''key_sentences: [oops'') = lit ''[oops''"
    by (simp add: payload_after_first_colon_def trim_def lit_def js_whitespace_def)
  show ?thesis
    using h2 h3 p end_flush_swallows_malformed_key_sentences [OF h1 h2 h3 h4]
    by simp
qed

section \<open>The overview\<close>

text \<open>
  C4. A line that starts with \<^verbatim>\<open>delta:\<close> is meant to add to the overview all the
  text after its first \<^verbatim>\<open>": "\<close>. \<^verbatim>\<open>line.split(': ', 2)[1]\<close> is the text between
  the first and the second separator only: of the line \<^verbatim>\<open>delta: a: b\<close> the overview
  receives \<^verbatim>\<open>a\<close>, not \<^verbatim>\<open>a: b\<close>. A line \<^verbatim>\<open>delta:NoSpace\<close> adds nothing, as
  intended.
\<close>

theorem delta_cut_at_second_separator:
  \<open>summary_stream parse [bytes ''delta: a: b'' @ [0x0A]]
     = Some (Resolved (Summary (JArray []) (lit ''a'')))
   \<and> summary_stream parse [bytes ''delta:NoSpace'' @ [0x0A]]
     = Some (Resolved (Summary (JArray []) []))\<close>
  by (simp add: run_defs)

text \<open>
  C9. The overview only grows: the overview before a step is a prefix of the overview
  after it, for a line of the loop of the \<^verbatim>\<open>'data'\<close> handler, for a whole chunk and
  for the flush at the end of the stream.
\<close>

theorem overview_append_only:
  "prefix (overview s) (overview (fst (data_line parse line s)))
   \<and> prefix (overview s) (overview (on_data parse chunk s))
   \<and> prefix (overview s) (overview (on_end parse s))"
  by (simp add: data_line_absorb on_data_fold fold_absorb on_end_absorb absorb_def settle_def
      split: option.split)

section \<open>Lines and chunk boundaries\<close>

text \<open>
  C2, as amended. Let \<open>S\<close> be the text of the chunks, each chunk decoded on its own.
  When the stream has ended, the callback has been called exactly once for every
  non-blank line of \<open>S\<close>, in order, and for nothing else, wherever the chunk
  boundaries fall; no line it received contains a line feed. Blank lines (empty or
  made of white space) are not handed to the callback.
\<close>

theorem callback_gets_nonblank_lines:
  "callback_calls (on_end parse (feed parse chunks stream_start))
     = filter (\<lambda>l. \<not> blank l) (lines_by_spec (decoded chunks))
   \<and> line_feed \<notin> set (concat (callback_calls (on_end parse (feed parse chunks stream_start))))"
proof -
  have calls: "callback_calls (on_end parse (feed parse chunks stream_start))
      = filter (\<lambda>l. \<not> blank l) (lines_of (decoded chunks))"
    by (simp add: feed_after_text on_end_after_text)
  have "line_feed \<notin> set l" if "l \<in> set (lines_of (decoded chunks))" for l
    using that by (rule lines_of_no_line_feed)
  then have "line_feed \<notin> set (concat (filter (\<lambda>l. \<not> blank l) (lines_of (decoded chunks))))"
    by auto
  with calls show ?thesis by (simp add: lines_by_spec_nonblank)
qed

text \<open>
  C2 as stated fails twice. The chunk \<^verbatim>\<open>a\n\nb\n\<close> has the lines \<^verbatim>\<open>a\<close>, the empty
  line and \<^verbatim>\<open>b\<close>, and the callback is not called for the empty one. The bytes
  C3 B1 0A, cut after the first byte, decode as a whole to one line of one character,
  and the callback receives a line of two replacement characters.
\<close>

theorem callback_lines_counterexample:
  "callback_calls (on_end Map.empty (feed Map.empty
       [bytes ''a'' @ [0x0A, 0x0A] @ bytes ''b'' @ [0x0A]] (stream_start :: unit stream)))
     \<noteq> lines_by_spec (toString_utf8 (concat [bytes ''a'' @ [0x0A, 0x0A] @ bytes ''b'' @ [0x0A]]))
   \<and> callback_calls (on_end Map.empty (feed Map.empty
       [[0xC3], [0xB1, 0x0A]] (stream_start :: unit stream)))
     \<noteq> lines_by_spec (toString_utf8 (concat [[0xC3], [0xB1, 0x0A]]))"
  by (simp add: run_defs lines_by_spec_def lines_of_def line_feed_def)

text \<open>
  C5, as amended. When every chunk but the last ends on a character boundary, the
  chunks decode, one by one, to the text their concatenation decodes to, and the
  stream is in the state, and resolves to the summary, that the single chunk of all
  the bytes leads to.
\<close>

theorem chunks_on_boundaries_decode_as_one:
  assumes "list_all ends_on_boundary (butlast chunks)"
  shows "decoded chunks = toString_utf8 (concat chunks)
     \<and> feed parse chunks stream_start = feed parse [concat chunks] stream_start
     \<and> summary_stream parse chunks = summary_stream parse [concat chunks]"
proof -
  have same: "decoded chunks = decoded [concat chunks]"
    using decoded_on_boundaries [OF assms] by (simp add: decoded_single)
  then show ?thesis
    by (simp add: feed_after_text summary_stream_after_text decoded_single)
qed

text \<open>The same at the bytes 61 C3 A9 | 0A C3: the first chunk ends after a whole
  two-byte character.\<close>

theorem chunks_on_boundaries_decode_as_one_witness:
  "list_all ends_on_boundary (butlast [[0x61, 0xC3, 0xA9], [0x0A, 0xC3]])
   \<and> decoded [[0x61, 0xC3, 0xA9], [0x0A, 0xC3]] = [0x61, 0xE9, 0x0A, 0xFFFD]
   \<and> toString_utf8 (concat [[0x61, 0xC3, 0xA9], [0x0A, 0xC3]]) = [0x61, 0xE9, 0x0A, 0xFFFD]
   \<and> feed Map.empty [[0x61, 0xC3, 0xA9], [0x0A, 0xC3]] (stream_start :: unit stream)
       = feed Map.empty [concat [[0x61, 0xC3, 0xA9], [0x0A, 0xC3]]] stream_start"
proof -
  have h: "list_all ends_on_boundary (butlast [[0x61, 0xC3, 0xA9], [0x0A, 0xC3]])"
    by (simp add: ends_on_boundary_def utf8_step_def utf8_lead_def utf8_idle_def utf16_def)
  have v: "toString_utf8 (concat [[0x61, 0xC3, 0xA9], [0x0A, 0xC3]]) = [0x61, 0xE9, 0x0A, 0xFFFD]"
    by (simp add: toString_utf8_def utf8_step_def utf8_lead_def utf8_idle_def utf16_def
        utf8_flush_def replacement_def)
  show ?thesis
    using h v chunks_on_boundaries_decode_as_one [OF h, of "Map.empty :: unit json_parse"]
    by simp
qed

text \<open>
  C5 as stated fails: the two bytes C3 A9 of one character, one byte to a chunk, leave
  two replacement characters in the buffer, where the two bytes together decode to
  U+00E9; the callback then receives another line than for the single chunk.
\<close>

theorem split_character_counterexample:
  "buffer (feed Map.empty [[0xC3], [0xA9]] (stream_start :: unit stream)) = [0xFFFD, 0xFFFD]
   \<and> toString_utf8 (concat [[0xC3], [0xA9]]) = [0xE9]
   \<and> callback_calls (on_end Map.empty (feed Map.empty [[0xC3], [0xA9]] (stream_start :: unit stream)))
       \<noteq> callback_calls (on_end Map.empty (feed Map.empty [concat [[0xC3], [0xA9]]] (stream_start :: unit stream)))"
  by (simp add: run_defs)

text \<open>
  C7. Two chunk sequences that carry the same characters, cut into chunks at
  different places, resolve to the same summary: the same overview and the same key
  sentences.
\<close>

theorem summary_independent_of_chunking:
  "decoded chunks = decoded chunks' \<Longrightarrow> summary_stream parse chunks = summary_stream parse chunks'"
  by (simp add: summary_stream_after_text)

text \<open>The same for two lines cut inside the text of the first and inside the tag of
  the second.\<close>

theorem summary_independent_of_chunking_witness:
  "decoded [bytes ''delta: He'', bytes ''llo'' @ [0x0A] @ bytes ''del'', bytes ''ta: !'']
     = decoded [bytes ''delta: Hello'' @ [0x0A] @ bytes ''delta: !'']
   \<and> summary_stream Map.empty [bytes ''delta: He'', bytes ''llo'' @ [0x0A] @ bytes ''del'', bytes ''ta: !'']
     = (summary_stream Map.empty [bytes ''delta: Hello'' @ [0x0A] @ bytes ''delta: !''] :: unit settled option)"
proof -
  have h: "decoded [bytes ''delta: He'', bytes ''llo'' @ [0x0A] @ bytes ''del'', bytes ''ta: !'']
     = decoded [bytes ''delta: Hello'' @ [0x0A] @ bytes ''delta: !'']"
    by (simp add: decoded_def toString_utf8_def utf8_step_def utf8_lead_def utf8_idle_def
        utf8_flush_def bytes_def)
  show ?thesis
    using h summary_independent_of_chunking [OF h, of "Map.empty :: unit json_parse"] by simp
qed

text \<open>
  C8, as amended. After every chunk, the text of the chunks so far, each chunk decoded
  on its own, is the lines taken out of the buffer so far, a line feed after each,
  followed by the buffer: no character of that text is lost or repeated. The buffer is
  what the \<^verbatim>\<open>'data'\<close> handler left, it contains no line feed, and the callback has
  received the non-blank ones of the lines taken out.
\<close>

theorem buffer_invariant:
  "decoded chunks
     = concat (map (\<lambda>l. l @ [line_feed]) (fst (extracted [] chunks)))
       @ buffer (feed parse chunks stream_start)
   \<and> buffer (feed parse chunks stream_start) = snd (extracted [] chunks)
   \<and> line_feed \<notin> set (buffer (feed parse chunks stream_start))
   \<and> callback_calls (feed parse chunks stream_start)
       = filter (\<lambda>l. \<not> blank l) (fst (extracted [] chunks))"
  using lines_of_join [of "decoded chunks"] last_lines_of_no_line_feed [of "decoded chunks"]
  by (simp add: feed_after_text after_text_def extracted_eq)

text \<open>
  C8 as stated, about the bytes, fails: of the bytes 61 C3 | A9 0A the two that encode
  U+00E9 are lost, and the line taken out holds two replacement characters in their
  place.
\<close>

theorem buffer_invariant_counterexample:
  "toString_utf8 (concat [[0x61, 0xC3], [0xA9, 0x0A]])
     \<noteq> concat (map (\<lambda>l. l @ [line_feed]) (fst (extracted [] [[0x61, 0xC3], [0xA9, 0x0A]])))
       @ buffer (feed Map.empty [[0x61, 0xC3], [0xA9, 0x0A]] (stream_start :: unit stream))"
  by (simp add: run_defs line_feed_def)

section \<open>PDF objects\<close>

text \<open>
  C10. For every \<^verbatim>\<open>ArticleData\<close>, the PDF built from it has \<open>isRtl = False\<close> and
  \<open>videos = []\<close>, whatever \<open>is_rtl\<close> and \<open>videos\<close> the data carries, and every other
  field is the one the \<^verbatim>\<open>Article\<close> constructor computes from the same data.
\<close>

theorem PDF_is_Article_with_fixed_isRtl_videos:
  "PDF data = (Article data)\<lparr>isRtl := False, videos := []\<rparr>"
  by (simp add: PDF_def Article_def nullish_def)

end
